theory Spec2Isabelle
  imports Complex_Main
begin

section \<open>Errors, bytes and images\<close>

text \<open>
  The program is a Python batch converter built on the Pillow imaging library. The source
  raises no exception of its own: every failure is an exception of the interpreter or of a
  library call, and it carries the message that \<open>str(e)\<close> prints.
\<close>

datatype error =
    ZeroDivisionError
  | IndexError
  | KeyError string
  | OSError string
  | ValueError string

fun str_error :: "error \<Rightarrow> string" where
  "str_error ZeroDivisionError = ''division by zero''"
| "str_error IndexError = ''list index out of range''"
| "str_error (KeyError k) = k"
| "str_error (OSError m) = m"
| "str_error (ValueError m) = m"

type_synonym path = string
type_synonym bytes = string

text \<open>
  A decoded raster: its size, its pixel mode (\<open>RGB\<close>, \<open>RGBA\<close>, \<open>P\<close>, ...) and its
  rows of pixels, top row first. The pixel type is left open.
\<close>

record 'p image =
  width :: int
  height :: int
  mode :: string
  rows :: "'p list list"

definition wf_image :: "'p image \<Rightarrow> bool" where
  "wf_image img \<longleftrightarrow>
     0 \<le> width img \<and> 0 \<le> height img \<and>
     int (length (rows img)) = height img \<and>
     list_all (\<lambda>r. int (length r) = width img) (rows img)"

text \<open>
  The three calls of \<open>Image.save\<close> the source makes:
  \<open>save(_, 'WEBP', quality=q, method=6)\<close>, \<open>save(_, 'JPEG', quality=q, optimize=True)\<close>
  and \<open>save(_, 'PNG', optimize=True)\<close>. Only the quality varies.
\<close>

datatype save_call = WEBP int | JPEG int | PNG

section \<open>The quality search\<close>

text \<open>
  The encoder is the imaging library's: \<open>pil_save img call\<close> is the byte string that
  the call writes, or the exception it raises. The search below is stated for every such
  encoder. An in-memory \<open>io.BytesIO\<close> buffer receives exactly these bytes, and
  \<open>buffer.tell()\<close> after the save is their number.
\<close>

type_synonym 'p encoder = "'p image \<Rightarrow> save_call \<Rightarrow> error + bytes"

text \<open>
  The \<open>if\<close>/\<open>elif\<close>/\<open>else\<close> of one loop iteration: a test save for \<open>webp\<close> and for
  \<open>jpg\<close>/\<open>jpeg\<close>, and no save at all (the \<open>return mid\<close> branch) for any other format.
\<close>

definition probe_save :: "'p encoder \<Rightarrow> 'p image \<Rightarrow> string \<Rightarrow> int \<Rightarrow> (error + bytes) option" where
  "probe_save pil_save img output_format mid =
     (if output_format = ''webp'' then Some (pil_save img (WEBP mid))
      else if output_format \<in> set [''jpg'', ''jpeg''] then Some (pil_save img (JPEG mid))
      else None)"

text \<open>
  \<open>for _ in range(n)\<close> with the loop variables \<open>low\<close>, \<open>high\<close> and \<open>best_quality\<close>.
  Python's \<open>//\<close> on integers is floor division, which is \<open>div\<close> on \<open>int\<close>. The result
  pairs the outcome with the trace of the test saves made, in order: each entry is
  \<open>(low, high, mid)\<close> at the moment of the save.
\<close>

fun logged :: "'a \<Rightarrow> 'a list \<times> 'b \<Rightarrow> 'a list \<times> 'b" where
  "logged x (xs, r) = (x # xs, r)"

fun quality_loop ::
  "'p encoder \<Rightarrow> 'p image \<Rightarrow> string \<Rightarrow> int \<Rightarrow> nat \<Rightarrow> int \<Rightarrow> int \<Rightarrow> int
     \<Rightarrow> (int \<times> int \<times> int) list \<times> (error + int)" where
  "quality_loop pil_save img output_format target_size_bytes 0 low high best_quality =
     ([], Inr best_quality)"
| "quality_loop pil_save img output_format target_size_bytes (Suc n) low high best_quality =
     (let mid = (low + high) div 2 in
      case probe_save pil_save img output_format mid of
        None \<Rightarrow> ([], Inr mid)
      | Some (Inl e) \<Rightarrow> ([(low, high, mid)], Inl e)
      | Some (Inr buffer) \<Rightarrow>
          (let size = int (length buffer)
           in logged (low, high, mid)
                (if size \<le> target_size_bytes
                 then quality_loop pil_save img output_format target_size_bytes n (mid + 1) high mid
                 else quality_loop pil_save img output_format target_size_bytes n low (mid - 1) best_quality)))"

definition find_quality_trace ::
  "'p encoder \<Rightarrow> 'p image \<Rightarrow> string \<Rightarrow> int \<Rightarrow> (int \<times> int \<times> int) list \<times> (error + int)" where
  "find_quality_trace pil_save img output_format target_size_bytes =
     quality_loop pil_save img output_format target_size_bytes 10 1 100 85"

definition find_quality_for_target_size ::
  "'p encoder \<Rightarrow> 'p image \<Rightarrow> string \<Rightarrow> int \<Rightarrow> error + int" where
  "find_quality_for_target_size pil_save img output_format target_size_bytes =
     snd (find_quality_trace pil_save img output_format target_size_bytes)"

definition probed :: "'p encoder \<Rightarrow> 'p image \<Rightarrow> string \<Rightarrow> int \<Rightarrow> int list" where
  "probed pil_save img output_format target_size_bytes =
     map (\<lambda>(low, high, mid). mid) (fst (find_quality_trace pil_save img output_format target_size_bytes))"

text \<open>The size of the encoding at a quality, where the format has one and the save succeeds.\<close>

definition encoded_size :: "'p encoder \<Rightarrow> 'p image \<Rightarrow> string \<Rightarrow> int \<Rightarrow> int option" where
  "encoded_size pil_save img output_format q =
     (case probe_save pil_save img output_format q of
        Some (Inr buffer) \<Rightarrow> Some (int (length buffer))
      | _ \<Rightarrow> None)"

text \<open>Encoders for concrete runs: the size of the output is a function of the quality.\<close>

definition sized_encoder :: "(int \<Rightarrow> nat) \<Rightarrow> 'p encoder" where
  "sized_encoder f img call =
     (case call of
        WEBP q \<Rightarrow> Inr (replicate (f q) (CHR ''w''))
      | JPEG q \<Rightarrow> Inr (replicate (f q) (CHR ''j''))
      | PNG \<Rightarrow> Inr (replicate 7 (CHR ''p'')))"

definition blank_rows :: "int \<Rightarrow> int \<Rightarrow> unit list list" where
  "blank_rows w h = replicate (nat h) (replicate (nat w) ())"

definition blank_image :: "int \<Rightarrow> int \<Rightarrow> unit image" where
  "blank_image w h = \<lparr>width = w, height = h, mode = ''RGB'', rows = blank_rows w h\<rparr>"

section \<open>Python numbers\<close>

text \<open>
  A Python \<open>float\<close> is an IEEE 754 binary64 number. A finite one is modelled by the
  rational it denotes, and every arithmetic operation rounds its exact result to 53
  significant bits, ties to even. The exponent is not bounded: the model agrees with
  binary64 on results of magnitude between \<open>2\<^sup>-\<^sup>1\<^sup>0\<^sup>2\<^sup>2\<close> and \<open>2\<^sup>1\<^sup>0\<^sup>2\<^sup>4\<close>, which covers
  every quotient and product of pixel dimensions, byte counts and percentages.
\<close>

type_synonym pyfloat = rat

function bit_length :: "int \<Rightarrow> int" where
  \<comment> \<open>\<open>int.bit_length()\<close> of a non-negative integer\<close>
  "bit_length n = (if n \<le> 0 then 0 else 1 + bit_length (n div 2))"
  by pat_completeness auto
termination
  by (relation "measure nat") auto

declare bit_length.simps [simp del]

definition ilog2 :: "rat \<Rightarrow> int" where
  \<comment> \<open>\<open>\<lfloor>log\<^sub>2 x\<rfloor>\<close> for \<open>x > 0\<close>\<close>
  "ilog2 x =
     (if 1 \<le> x then bit_length \<lfloor>x\<rfloor> - 1
      else - bit_length (\<lceil>1 / x\<rceil> - 1))"

definition pow2 :: "int \<Rightarrow> rat" where
  "pow2 e = (if 0 \<le> e then 2 ^ nat e else 1 / 2 ^ nat (- e))"

definition round_half_even :: "rat \<Rightarrow> int" where
  "round_half_even x =
     (let n = \<lfloor>x\<rfloor>; r = x - of_int n
      in if r < 1 / 2 then n else if 1 / 2 < r then n + 1 else if even n then n else n + 1)"

definition binary64 :: "rat \<Rightarrow> pyfloat" where
  "binary64 x =
     (if x = 0 then 0
      else let e = ilog2 \<bar>x\<bar> - 52;
               m = round_half_even (\<bar>x\<bar> / pow2 e)
           in sgn x * of_int m * pow2 e)"

definition float_of_int :: "int \<Rightarrow> pyfloat" where
  "float_of_int i = binary64 (of_int i)"

definition int_truediv :: "int \<Rightarrow> int \<Rightarrow> error + pyfloat" where
  \<comment> \<open>\<open>a / b\<close> on two integers: the correctly rounded quotient\<close>
  "int_truediv a b = (if b = 0 then Inl ZeroDivisionError else Inr (binary64 (of_int a / of_int b)))"

definition float_mul :: "pyfloat \<Rightarrow> pyfloat \<Rightarrow> pyfloat" where
  "float_mul x y = binary64 (x * y)"

definition py_int :: "pyfloat \<Rightarrow> int" where
  \<comment> \<open>\<open>int(x)\<close> truncates towards zero\<close>
  "py_int x = (if 0 \<le> x then \<lfloor>x\<rfloor> else \<lceil>x\<rceil>)"

definition py_index :: "'a list \<Rightarrow> int \<Rightarrow> error + 'a" where
  \<comment> \<open>\<open>xs[i]\<close>: an index from \<open>-len(xs)\<close> up to \<open>-1\<close> counts from the end\<close>
  "py_index xs i =
     (if 0 \<le> i \<and> i < int (length xs) then Inr (xs ! nat i)
      else if i < 0 \<and> - int (length xs) \<le> i then Inr (xs ! nat (int (length xs) + i))
      else Inl IndexError)"

fun str_nat :: "nat \<Rightarrow> string" where
  "str_nat n =
     (if n < 10 then [char_of (48 + n)]
      else str_nat (n div 10) @ [char_of (48 + n mod 10)])"

declare str_nat.simps [simp del]

definition lower_char :: "char \<Rightarrow> char" where
  "lower_char c =
     (if c \<in> set ''ABCDEFGHIJKLMNOPQRSTUVWXYZ'' then char_of (of_char c + (32::nat)) else c)"

definition str_lower :: "string \<Rightarrow> string" where
  \<comment> \<open>\<open>str.lower()\<close> on ASCII text\<close>
  "str_lower s = map lower_char s"

section \<open>Settings and the library\<close>

text \<open>
  The settings are a Python dictionary read with \<open>settings.get(key, default)\<close>. A field
  is \<open>None\<close> when the key is absent, and \<open>get_or\<close> supplies the default of the call.
\<close>

record settings =
  quality :: "int option"
  cut_mode :: "string option"
  output_format :: "string option"
  filename_prefix :: "string option"
  filename_suffix :: "string option"
  strip_metadata :: "bool option"
  target_size_kb :: "int option"
  resize_enabled :: "bool option"
  maintain_aspect :: "bool option"
  resize_mode :: "string option"
  preset_width :: "int option"
  custom_width :: "int option"
  custom_height :: "int option"
  scale_percentage :: "int option"
  watermark_enabled :: "bool option"
  watermark_text :: "string option"
  watermark_position :: "string option"
  watermark_size :: "int option"
  watermark_opacity :: "int option"

definition get_or :: "'a option \<Rightarrow> 'a \<Rightarrow> 'a" where
  "get_or v d = (case v of None \<Rightarrow> d | Some x \<Rightarrow> x)"

definition no_settings :: settings where
  "no_settings =
     \<lparr>quality = None, cut_mode = None, output_format = None, filename_prefix = None,
      filename_suffix = None, strip_metadata = None, target_size_kb = None,
      resize_enabled = None, maintain_aspect = None, resize_mode = None, preset_width = None,
      custom_width = None, custom_height = None, scale_percentage = None,
      watermark_enabled = None, watermark_text = None, watermark_position = None,
      watermark_size = None, watermark_opacity = None\<rparr>"

text \<open>
  What the program takes from Pillow, \<open>os.path\<close> and \<open>pathlib\<close>. The pixel arithmetic of
  the library (resampling, compositing, text rendering, encoding, decoding) and the path
  arithmetic of the platform are parameters; where the library fixes the size or the mode
  of its result, the definitions below say so.
  \<^item> \<open>image_open\<close>: \<open>Image.open\<close> on the content of a file, with the decoding that Pillow
    defers to the first use of the pixels;
  \<^item> \<open>image_save\<close>: the encoder of \<open>Image.save\<close>;
  \<^item> \<open>resample\<close>: the pixels of \<open>Image.resize(size, LANCZOS)\<close>;
  \<^item> \<open>image_thumbnail\<close>: \<open>Image.thumbnail(size, LANCZOS)\<close>;
  \<^item> \<open>paste_on_white\<close>: the pixels of a white \<open>RGB\<close> image with the argument pasted through
    its alpha band; \<open>convert_pixels m\<close>: the pixels of \<open>Image.convert(m)\<close>;
  \<^item> \<open>textbbox\<close>: \<open>ImageDraw.textbbox((0, 0), text, font)\<close> at a font size;
  \<^item> \<open>draw_text\<close>: the pixels after the text is drawn on a transparent overlay at a
    position, font size and opacity and the overlay is alpha-composited on the image;
  \<^item> \<open>write_error\<close>: the exception, if any, of writing bytes to a path;
  \<^item> \<open>makedirs_error\<close>: the exception, if any, of \<open>os.makedirs(_, exist_ok=True)\<close>;
  \<^item> \<open>path_join\<close>, \<open>path_stem\<close>, \<open>path_parent\<close>: \<open>os.path.join\<close>, \<open>Path.stem\<close>,
    \<open>Path.parent\<close>.
\<close>

record 'p library =
  image_open :: "bytes \<Rightarrow> error + 'p image"
  image_save :: "'p encoder"
  resample :: "'p image \<Rightarrow> int \<times> int \<Rightarrow> error + 'p list list"
  image_thumbnail :: "'p image \<Rightarrow> int \<times> int \<Rightarrow> error + 'p image"
  paste_on_white :: "'p image \<Rightarrow> 'p list list"
  convert_pixels :: "string \<Rightarrow> 'p image \<Rightarrow> 'p list list"
  textbbox :: "string \<Rightarrow> int \<Rightarrow> int \<times> int \<times> int \<times> int"
  draw_text :: "'p image \<Rightarrow> int \<times> int \<Rightarrow> string \<Rightarrow> int \<Rightarrow> int \<Rightarrow> 'p list list"
  write_error :: "path \<Rightarrow> bytes \<Rightarrow> error option"
  makedirs_error :: "path \<Rightarrow> error option"
  path_join :: "path \<Rightarrow> string \<Rightarrow> path"
  path_stem :: "path \<Rightarrow> string"
  path_parent :: "path \<Rightarrow> path"

definition image_resize :: "'p library \<Rightarrow> 'p image \<Rightarrow> int \<times> int \<Rightarrow> error + 'p image" where
  \<comment> \<open>\<open>img.resize(size, LANCZOS)\<close>: a new image of exactly the requested size\<close>
  "image_resize L img new_size =
     (case resample L img new_size of
        Inl e \<Rightarrow> Inl e
      | Inr px \<Rightarrow> Inr (img\<lparr>width := fst new_size, height := snd new_size, rows := px\<rparr>))"

definition image_convert :: "'p library \<Rightarrow> string \<Rightarrow> 'p image \<Rightarrow> 'p image" where
  \<comment> \<open>\<open>img.convert(m)\<close>: same size, mode \<open>m\<close>\<close>
  "image_convert L m img = img\<lparr>mode := m, rows := convert_pixels L m img\<rparr>"

definition crop :: "'p image \<Rightarrow> int \<times> int \<times> int \<times> int \<Rightarrow> 'p image" where
  \<comment> \<open>\<open>img.crop((left, upper, right, lower))\<close> for a box inside the image: the size is
      that of the box, the pixel at \<open>(x, y)\<close> is the source's at \<open>(x + left, y + upper)\<close>\<close>
  "crop img box =
     (case box of (left, upper, right, lower) \<Rightarrow>
        img\<lparr>width := right - left, height := lower - upper,
            rows := map (\<lambda>r. take (nat (right - left)) (drop (nat left) r))
                      (take (nat (lower - upper)) (drop (nat upper) (rows img)))\<rparr>)"

section \<open>The transforms\<close>

definition resize_image :: "'p library \<Rightarrow> 'p image \<Rightarrow> settings \<Rightarrow> error + 'p image" where
  "resize_image L img settings =
     (let mode_of_resize = get_or (resize_mode settings) ''width'';
          keep_aspect = get_or (maintain_aspect settings) True
      in if mode_of_resize = ''preset'' then
           (let target_width = get_or (preset_width settings) 1920
            in case (if keep_aspect then
                       (case int_truediv target_width (width img) of
                          Inl e \<Rightarrow> Inl e
                        | Inr ratio \<Rightarrow> Inr (py_int (float_mul (float_of_int (height img)) ratio)))
                     else Inr (height img)) of
                 Inl e \<Rightarrow> Inl e
               | Inr target_height \<Rightarrow> image_resize L img (target_width, target_height))
         else if mode_of_resize = ''custom'' then
           (let target_width = get_or (custom_width settings) (width img);
                target_height = get_or (custom_height settings) (height img)
            in if keep_aspect then image_thumbnail L img (target_width, target_height)
               else image_resize L img (target_width, target_height))
         else if mode_of_resize = ''percentage'' then
           (case int_truediv (get_or (scale_percentage settings) 100) 100 of
              Inl e \<Rightarrow> Inl e
            | Inr scale \<Rightarrow>
                (let new_width = py_int (float_mul (float_of_int (width img)) scale);
                     new_height = py_int (float_mul (float_of_int (height img)) scale)
                 in image_resize L img (new_width, new_height)))
         else Inr img)"

text \<open>
  The colour-mode block of \<open>process_image\<close>. In its first branch the image has mode
  \<open>RGBA\<close> or \<open>LA\<close> when it is pasted (a \<open>P\<close> image was converted just before), so the
  mask is always its alpha band; the result is the white \<open>RGB\<close> background of the same
  size.
\<close>

definition normalize_mode :: "'p library \<Rightarrow> 'p image \<Rightarrow> 'p image" where
  "normalize_mode L img =
     (if mode img \<in> set [''RGBA'', ''LA'', ''P''] then
        (let img' = (if mode img = ''P'' then image_convert L ''RGBA'' img else img)
         in img'\<lparr>mode := ''RGB'', rows := paste_on_white L img'\<rparr>)
      else if mode img \<noteq> ''RGB'' then image_convert L ''RGB'' img
      else img)"

definition watermark_xy :: "string \<Rightarrow> int \<Rightarrow> int \<Rightarrow> int \<Rightarrow> int \<Rightarrow> int \<times> int" where
  "watermark_xy position img_width img_height text_width text_height =
     (let margin = 20
      in if position = ''top-left'' then (margin, margin)
         else if position = ''top-right'' then (img_width - text_width - margin, margin)
         else if position = ''bottom-left'' then (margin, img_height - text_height - margin)
         else if position = ''bottom-right'' then
           (img_width - text_width - margin, img_height - text_height - margin)
         else ((img_width - text_width) div 2, (img_height - text_height) div 2))"

definition add_watermark :: "'p library \<Rightarrow> 'p image \<Rightarrow> settings \<Rightarrow> 'p image" where
  "add_watermark L img settings =
     (let wm_text = get_or (watermark_text settings) []
      in if wm_text = [] then img
         else
           (let font_size = get_or (watermark_size settings) 36;
                bbox = textbbox L wm_text font_size;
                text_width = fst (snd (snd bbox)) - fst bbox;
                text_height = snd (snd (snd bbox)) - fst (snd bbox);
                position = get_or (watermark_position settings) ''bottom-right'';
                xy = watermark_xy position (width img) (height img) text_width text_height;
                opacity = get_or (watermark_opacity settings) 128
            in img\<lparr>mode := ''RGB'', rows := draw_text L img xy wm_text font_size opacity\<rparr>))"

text \<open>
  The cut block of \<open>process_image\<close>: the images to save, in the order of the saves, each
  with the suffix its file name gets. A cut mode other than \<open>none\<close>, \<open>horizontal\<close> and
  \<open>vertical\<close> saves nothing.
\<close>

definition cut_halves :: "string \<Rightarrow> 'p image \<Rightarrow> (string \<times> 'p image) list" where
  "cut_halves mode_of_cut img =
     (if mode_of_cut = ''none'' then [([], img)]
      else if mode_of_cut = ''horizontal'' then
        (let half_height = height img div 2
         in [(''_top'', crop img (0, 0, width img, half_height)),
             (''_bottom'', crop img (0, half_height, width img, height img))])
      else if mode_of_cut = ''vertical'' then
        (let half_width = width img div 2
         in [(''_left'', crop img (0, 0, half_width, height img)),
             (''_right'', crop img (half_width, 0, width img, height img))])
      else [])"

text \<open>Putting two images back together: one above the other, one beside the other.\<close>

definition stack_vertical :: "'p image \<Rightarrow> 'p image \<Rightarrow> 'p image" where
  "stack_vertical a b = a\<lparr>height := height a + height b, rows := rows a @ rows b\<rparr>"

definition stack_horizontal :: "'p image \<Rightarrow> 'p image \<Rightarrow> 'p image" where
  "stack_horizontal a b =
     a\<lparr>width := width a + width b, rows := map (\<lambda>(r, r'). r @ r') (zip (rows a) (rows b))\<rparr>"

section \<open>Saving, one file, the batch\<close>

text \<open>
  The state that a batch changes: the two byte counters of the worker and the files on the
  disk (regular files only). A save to a path is modelled as an encode followed by a
  write, and a save that raises as leaving the disk as it was. Pillow opens the output
  path before it encodes, so a failing save can in fact leave an output file that existed
  before emptied; no statement below depends on the disk after a failed save.
\<close>

record proc_state =
  total_original_size :: int
  total_new_size :: int
  disk :: "path \<rightharpoonup> bytes"

definition no_such_file :: "path \<Rightarrow> error" where
  \<comment> \<open>\<open>FileNotFoundError\<close>; \<open>str(e)\<close> shows the path in single quotes (its \<open>repr\<close>, for a
      path of printable characters without quote or backslash)\<close>
  "no_such_file p =
     OSError (''[Errno 2] No such file or directory: '' @ [CHR 0x27] @ p @ [CHR 0x27])"

definition os_getsize :: "(path \<rightharpoonup> bytes) \<Rightarrow> path \<Rightarrow> error + int" where
  "os_getsize d p =
     (case d p of
        None \<Rightarrow> Inl (no_such_file p)
      | Some b \<Rightarrow> Inr (int (length b)))"

definition open_file :: "'p library \<Rightarrow> (path \<rightharpoonup> bytes) \<Rightarrow> path \<Rightarrow> error + 'p image" where
  "open_file L d p =
     (case d p of
        None \<Rightarrow> Inl (no_such_file p)
      | Some b \<Rightarrow> image_open L b)"

definition save_to_path ::
  "'p library \<Rightarrow> 'p image \<Rightarrow> path \<Rightarrow> save_call \<Rightarrow> (path \<rightharpoonup> bytes) \<Rightarrow> error + (path \<rightharpoonup> bytes)" where
  "save_to_path L img p call d =
     (case image_save L img call of
        Inl e \<Rightarrow> Inl e
      | Inr b \<Rightarrow> (case write_error L p b of Some e \<Rightarrow> Inl e | None \<Rightarrow> Inr (d(p \<mapsto> b))))"

definition track_new_size :: "path \<Rightarrow> proc_state \<Rightarrow> proc_state" where
  \<comment> \<open>\<open>if os.path.exists(output_path): self.total_new_size += os.path.getsize(output_path)\<close>\<close>
  "track_new_size p st =
     (case disk st p of
        None \<Rightarrow> st
      | Some b \<Rightarrow> st\<lparr>total_new_size := total_new_size st + int (length b)\<rparr>)"

definition save_image ::
  "'p library \<Rightarrow> 'p image \<Rightarrow> path \<Rightarrow> settings \<Rightarrow> proc_state \<Rightarrow> error + proc_state" where
  "save_image L img output_path settings st =
     (let fmt = str_lower (get_or (output_format settings) ''webp'');
          q0 = get_or (quality settings) 85;
          target_kb = get_or (target_size_kb settings) 0
      in case (if target_kb > 0
               then find_quality_for_target_size (image_save L) img fmt (target_kb * 1024)
               else Inr q0) of
           Inl e \<Rightarrow> Inl e
         | Inr q \<Rightarrow>
             (case (if fmt = ''webp'' then save_to_path L img output_path (WEBP q) (disk st)
                    else if fmt \<in> set [''jpg'', ''jpeg''] then
                      save_to_path L img output_path (JPEG q) (disk st)
                    else if fmt = ''png'' then save_to_path L img output_path PNG (disk st)
                    else Inr (disk st)) of
                Inl e \<Rightarrow> Inl e
              | Inr d \<Rightarrow> Inr (track_new_size output_path (st\<lparr>disk := d\<rparr>))))"

text \<open>
  The saves of one input, in order. An exception ends them; what the earlier saves wrote
  and counted stays.
\<close>

fun save_all ::
  "'p library \<Rightarrow> settings \<Rightarrow> path \<Rightarrow> string \<Rightarrow> string \<Rightarrow> (string \<times> 'p image) list
     \<Rightarrow> proc_state \<Rightarrow> error option \<times> proc_state" where
  "save_all L settings out_dir base_name fmt [] st = (None, st)"
| "save_all L settings out_dir base_name fmt ((suffix, img) # rest) st =
     (case save_image L img (path_join L out_dir (base_name @ suffix @ ''.'' @ fmt)) settings st of
        Inl e \<Rightarrow> (Some e, st)
      | Inr st' \<Rightarrow> save_all L settings out_dir base_name fmt rest st')"

text \<open>
  One input file. \<open>img.copy()\<close>, taken when \<open>strip_metadata\<close> is set, is a pixel-identical
  image: the image of the model holds no metadata, so the step changes nothing here.
\<close>

definition process_image ::
  "'p library \<Rightarrow> settings \<Rightarrow> path \<Rightarrow> path \<Rightarrow> proc_state \<Rightarrow> error option \<times> proc_state" where
  "process_image L settings out_dir file_path st =
     (case os_getsize (disk st) file_path of
        Inl e \<Rightarrow> (Some e, st)
      | Inr original_size \<Rightarrow>
          (let st1 = st\<lparr>total_original_size := total_original_size st + original_size\<rparr>
           in case open_file L (disk st1) file_path of
                Inl e \<Rightarrow> (Some e, st1)
              | Inr img0 \<Rightarrow>
                  (case (if get_or (resize_enabled settings) False
                         then resize_image L img0 settings else Inr img0) of
                     Inl e \<Rightarrow> (Some e, st1)
                   | Inr img1 \<Rightarrow>
                       (let img2 = normalize_mode L img1;
                            img3 = (if get_or (watermark_enabled settings) False
                                    then add_watermark L img2 settings else img2);
                            fmt = str_lower (get_or (output_format settings) ''webp'');
                            base_name = get_or (filename_prefix settings) [] @ path_stem L file_path
                                          @ get_or (filename_suffix settings) []
                        in save_all L settings out_dir base_name fmt
                             (cut_halves (get_or (cut_mode settings) ''none'') img3) st1))))"

text \<open>
  The worker reports through four signals. \<open>run\<close> wraps its whole loop in one
  \<open>try\<close>/\<open>except Exception\<close>: the result is the signals emitted, in order, and the state.
\<close>

record stats =
  total_files :: int
  original_size :: int
  new_size :: int
  savings :: int
  percentage :: pyfloat

datatype signal =
    Progress int
  | Stats_update stats
  | Finished string
  | Error string

fun run_loop ::
  "'p library \<Rightarrow> settings \<Rightarrow> path \<Rightarrow> int \<Rightarrow> int \<Rightarrow> path list \<Rightarrow> proc_state
     \<Rightarrow> signal list \<times> error option \<times> proc_state" where
  "run_loop L settings out_dir n_total idx [] st = ([], None, st)"
| "run_loop L settings out_dir n_total idx (file_path # rest) st =
     (case process_image L settings out_dir file_path st of
        (Some e, st') \<Rightarrow> ([], Some e, st')
      | (None, st') \<Rightarrow>
          (case int_truediv (idx + 1) n_total of
             Inl e \<Rightarrow> ([], Some e, st')
           | Inr r \<Rightarrow>
               (let percent = py_int (float_mul r (float_of_int 100));
                    res = run_loop L settings out_dir n_total (idx + 1) rest st'
                in (Progress percent # fst res, snd res))))"

definition final_stats :: "int \<Rightarrow> proc_state \<Rightarrow> error + stats" where
  "final_stats n_total st =
     (case (if total_original_size st > 0
            then (case int_truediv (total_original_size st - total_new_size st) (total_original_size st) of
                    Inl e \<Rightarrow> Inl e
                  | Inr r \<Rightarrow> Inr (float_mul r (float_of_int 100)))
            else Inr 0) of
        Inl e \<Rightarrow> Inl e
      | Inr p \<Rightarrow>
          Inr \<lparr>total_files = n_total,
               original_size = total_original_size st,
               new_size = total_new_size st,
               savings = total_original_size st - total_new_size st,
               percentage = p\<rparr>)"

definition run ::
  "'p library \<Rightarrow> path list \<Rightarrow> path \<Rightarrow> settings \<Rightarrow> proc_state \<Rightarrow> signal list \<times> proc_state" where
  "run L files out_dir settings st =
     (let n_total = int (length files)
      in case run_loop L settings out_dir n_total 0 files st of
           (sigs, Some e, st') \<Rightarrow> (sigs @ [Error (''Error: '' @ str_error e)], st')
         | (sigs, None, st') \<Rightarrow>
             (case final_stats n_total st' of
                Inl e \<Rightarrow> (sigs @ [Error (''Error: '' @ str_error e)], st')
              | Inr stats \<Rightarrow>
                  (sigs @ [Stats_update stats,
                           Finished (''Successfully processed '' @ str_nat (length files) @ '' image(s)'')],
                   st')))"

definition new_processor :: "(path \<rightharpoonup> bytes) \<Rightarrow> proc_state" where
  \<comment> \<open>the counters as \<open>__init__\<close> sets them\<close>
  "new_processor d = \<lparr>total_original_size = 0, total_new_size = 0, disk = d\<rparr>"

section \<open>The window: settings and the start of a batch\<close>

text \<open>The widgets that \<open>get_settings\<close> reads, each by the value its accessor returns.\<close>

record ui =
  ui_quality_slider :: int
  ui_radio_horizontal :: bool
  ui_radio_vertical :: bool
  ui_format_jpg :: bool
  ui_format_png :: bool
  ui_prefix_input :: string
  ui_suffix_input :: string
  ui_strip_metadata :: bool
  ui_target_size_check :: bool
  ui_target_size_spinbox :: int
  ui_resize_enabled :: bool
  ui_maintain_aspect :: bool
  ui_resize_preset :: bool
  ui_preset_combo :: int
  ui_resize_custom :: bool
  ui_custom_width :: int
  ui_custom_height :: int
  ui_scale_percentage :: int
  ui_watermark_enabled :: bool
  ui_watermark_text :: string
  ui_watermark_position :: string
  ui_watermark_size :: int
  ui_watermark_opacity :: int

definition get_cut_mode :: "ui \<Rightarrow> string" where
  "get_cut_mode u =
     (if ui_radio_horizontal u then ''horizontal''
      else if ui_radio_vertical u then ''vertical''
      else ''none'')"

definition get_output_format :: "ui \<Rightarrow> string" where
  "get_output_format u =
     (if ui_format_jpg u then ''jpg'' else if ui_format_png u then ''png'' else ''webp'')"

definition preset_values :: "int list" where
  "preset_values = [1920, 1200, 800, 400]"

definition get_settings :: "ui \<Rightarrow> error + settings" where
  "get_settings u =
     (let s0 = no_settings
            \<lparr>quality := Some (ui_quality_slider u),
             cut_mode := Some (get_cut_mode u),
             output_format := Some (get_output_format u),
             filename_prefix := Some (ui_prefix_input u),
             filename_suffix := Some (ui_suffix_input u),
             strip_metadata := Some (ui_strip_metadata u)\<rparr>;
          s1 = s0\<lparr>target_size_kb :=
                    Some (if ui_target_size_check u then ui_target_size_spinbox u else 0)\<rparr>;
          s2 = s1\<lparr>resize_enabled := Some (ui_resize_enabled u)\<rparr>
      in case (if ui_resize_enabled u then
                 (let s3 = s2\<lparr>maintain_aspect := Some (ui_maintain_aspect u)\<rparr>
                  in if ui_resize_preset u then
                       (case py_index preset_values (ui_preset_combo u) of
                          Inl e \<Rightarrow> Inl e
                        | Inr w \<Rightarrow> Inr (s3\<lparr>resize_mode := Some ''preset'', preset_width := Some w\<rparr>))
                     else if ui_resize_custom u then
                       Inr (s3\<lparr>resize_mode := Some ''custom'',
                               custom_width := Some (ui_custom_width u),
                               custom_height := Some (ui_custom_height u)\<rparr>)
                     else
                       Inr (s3\<lparr>resize_mode := Some ''percentage'',
                               scale_percentage := Some (ui_scale_percentage u)\<rparr>))
               else Inr s2) of
           Inl e \<Rightarrow> Inl e
         | Inr s4 \<Rightarrow>
             (let s5 = s4\<lparr>watermark_enabled := Some (ui_watermark_enabled u)\<rparr>
              in Inr (if ui_watermark_enabled u then
                        s5\<lparr>watermark_text := Some (ui_watermark_text u),
                           watermark_position := Some (ui_watermark_position u),
                           watermark_size := Some (ui_watermark_size u),
                           watermark_opacity := Some (ui_watermark_opacity u)\<rparr>
                      else s5)))"

text \<open>
  \<open>process_images\<close> of the window, up to the start of the worker. It either shows a
  warning box (title and text) and returns, or dies of an exception, or starts the worker
  on the selected files; the worker's run is taken to its end here. The second component
  is the disk afterwards. \<open>settings[key]\<close> raises \<open>KeyError\<close> on an absent key.
\<close>

datatype outcome =
    Warning string string
  | Crashed error
  | Started path "signal list" proc_state

definition process_images ::
  "'p library \<Rightarrow> path list \<Rightarrow> path \<Rightarrow> ui \<Rightarrow> (path \<rightharpoonup> bytes) \<Rightarrow> outcome \<times> (path \<rightharpoonup> bytes)" where
  "process_images L selected_files output_directory u d =
     (if selected_files = [] then (Warning ''No Images'' ''Please add images first!'', d)
      else case get_settings u of
        Inl e \<Rightarrow> (Crashed e, d)
      | Inr settings \<Rightarrow>
          (case watermark_enabled settings of
             None \<Rightarrow> (Crashed (KeyError ''watermark_enabled''), d)
           | Some enabled \<Rightarrow>
               (case (if enabled then
                        (case watermark_text settings of
                           None \<Rightarrow> Inl (KeyError ''watermark_text'')
                         | Some t \<Rightarrow> Inr (t = []))
                      else Inr False) of
                  Inl e \<Rightarrow> (Crashed e, d)
                | Inr True \<Rightarrow>
                    (Warning ''Watermark Text Required''
                       ''Please enter watermark text or disable watermark!'', d)
                | Inr False \<Rightarrow>
                    (case (if output_directory = [] then
                             (let auto_dir = path_join L (path_parent L (hd selected_files))
                                               ''processed images''
                              in case makedirs_error L auto_dir of
                                   Some e \<Rightarrow> Inl e
                                 | None \<Rightarrow> Inr auto_dir)
                           else Inr output_directory) of
                       Inl e \<Rightarrow> (Crashed e, d)
                     | Inr out_dir \<Rightarrow>
                         (let r = run L selected_files out_dir settings (new_processor d)
                          in (Started out_dir (fst r) (snd r), disk (snd r)))))))"

section \<open>A small library for concrete runs\<close>

text \<open>
  The library below stands in for Pillow and the file system when a statement is run on
  a concrete input. A file whose content is \<open>corrupt\<close> does not decode, every other file
  decodes to a blank 4 by 3 \<open>RGB\<close> image; the encoded size at a quality is given by the
  argument; paths under \<open>/ro\<close> cannot be written.
\<close>

definition toy_library :: "(int \<Rightarrow> nat) \<Rightarrow> unit library" where
  "toy_library f =
     \<lparr>image_open = (\<lambda>b. if b = ''corrupt'' then Inl (OSError ''cannot identify image file'')
                          else Inr (blank_image 4 3)),
      image_save = sized_encoder f,
      resample = (\<lambda>img (w, h). if w < 1 \<or> h < 1 then Inl (ValueError ''height and width must be > 0'')
                                else Inr (blank_rows w h)),
      image_thumbnail = (\<lambda>img (w, h). Inr img),
      paste_on_white = rows,
      convert_pixels = (\<lambda>m img. rows img),
      textbbox = (\<lambda>t font_size. (0, 0, int (length t) * font_size, font_size)),
      draw_text = (\<lambda>img xy t font_size opacity. rows img),
      write_error = (\<lambda>p b. if take 3 p = ''/ro'' then Some (OSError ''Permission denied'') else None),
      makedirs_error = (\<lambda>p. None),
      path_join = (\<lambda>a b. a @ ''/'' @ b),
      path_stem = (\<lambda>p. takeWhile (\<lambda>c. c \<noteq> CHR ''.'') (rev (takeWhile (\<lambda>c. c \<noteq> CHR ''/'') (rev p)))),
      path_parent = (\<lambda>p. ''/in'')\<rparr>"

definition default_ui :: ui where
  "default_ui =
     \<lparr>ui_quality_slider = 85, ui_radio_horizontal = False, ui_radio_vertical = False,
      ui_format_jpg = False, ui_format_png = False, ui_prefix_input = [], ui_suffix_input = [],
      ui_strip_metadata = False, ui_target_size_check = False, ui_target_size_spinbox = 500,
      ui_resize_enabled = False, ui_maintain_aspect = True, ui_resize_preset = True,
      ui_preset_combo = 0, ui_resize_custom = False, ui_custom_width = 1920,
      ui_custom_height = 1080, ui_scale_percentage = 50, ui_watermark_enabled = False,
      ui_watermark_text = [], ui_watermark_position = ''bottom-right'', ui_watermark_size = 36,
      ui_watermark_opacity = 128\<rparr>"

definition sample_image :: "nat image" where
  "sample_image = \<lparr>width = 3, height = 2, mode = ''RGB'', rows = [[1, 2, 3], [4, 5, 6]]\<rparr>"

section \<open>Properties of the quality search\<close>

lemma fst_logged: "fst (logged x r) = x # fst r"
  by (cases r) simp

lemma snd_logged: "snd (logged x r) = snd r"
  by (cases r) simp

lemma ten_iterations: "(10::nat) = Suc (Suc (Suc (Suc (Suc (Suc (Suc (Suc (Suc (Suc 0)))))))))"
  by simp

lemma quality_loop_sized:
  assumes "fmt = ''webp'' \<or> fmt = ''jpg'' \<or> fmt = ''jpeg''"
  shows "quality_loop (sized_encoder f) img fmt target (Suc n) low high best =
    logged (low, high, (low + high) div 2)
      (if int (f ((low + high) div 2)) \<le> target
       then quality_loop (sized_encoder f) img fmt target n ((low + high) div 2 + 1) high ((low + high) div 2)
       else quality_loop (sized_encoder f) img fmt target n low ((low + high) div 2 - 1) best)"
  using assms by (auto simp: probe_save_def sized_encoder_def Let_def)

lemma encoded_size_sized:
  assumes "fmt = ''webp'' \<or> fmt = ''jpg'' \<or> fmt = ''jpeg''"
  shows "encoded_size (sized_encoder f) img fmt q = Some (int (f q))"
  using assms by (auto simp: encoded_size_def probe_save_def sized_encoder_def)

text \<open>
  The invariant of the binary search, for an encoder that succeeds on \<open>[1, 100]\<close> with a
  size \<open>sz\<close> that grows with the quality, and a target that some quality meets: every
  quality below \<open>low\<close> fits, none above \<open>high\<close> does, and \<open>best\<close> is \<open>low - 1\<close> once
  \<open>low\<close> has moved. With fewer than \<open>2 ^ n\<close> candidates left, \<open>n\<close> more iterations end on
  the largest quality that fits; iterations after the candidates ran out probe \<open>high\<close>
  again and change nothing.
\<close>

lemma quality_loop_max:
  fixes sz :: "int \<Rightarrow> int"
  assumes enc: "\<And>q. 1 \<le> q \<Longrightarrow> q \<le> 100 \<Longrightarrow> encoded_size ps img fmt q = Some (sz q)"
      and mono: "\<And>q q'. 1 \<le> q \<Longrightarrow> q \<le> q' \<Longrightarrow> q' \<le> 100 \<Longrightarrow> sz q \<le> sz q'"
      and ach: "\<exists>q. 1 \<le> q \<and> q \<le> 100 \<and> sz q \<le> target"
  shows "1 \<le> low \<Longrightarrow> high \<le> 100 \<Longrightarrow> low \<le> high + 1 \<Longrightarrow> high + 1 - low < 2 ^ n
     \<Longrightarrow> (\<forall>q. 1 \<le> q \<and> q < low \<longrightarrow> sz q \<le> target)
     \<Longrightarrow> (\<forall>q. high < q \<and> q \<le> 100 \<longrightarrow> target < sz q)
     \<Longrightarrow> (1 < low \<longrightarrow> best = low - 1)
     \<Longrightarrow> \<exists>r. snd (quality_loop ps img fmt target n low high best) = Inr r \<and>
            1 \<le> r \<and> r \<le> 100 \<and> sz r \<le> target \<and> (r < 100 \<longrightarrow> target < sz (r + 1))"
proof (induction n arbitrary: low high best)
  case 0
  then have eq: "low = high + 1" by simp
  have "1 < low"
  proof (rule ccontr)
    assume "\<not> 1 < low"
    with 0 eq have "high = 0" by simp
    with 0 ach show False by force
  qed
  with 0 eq show ?case by auto
next
  case (Suc n)
  let ?mid = "(low + high) div 2"
  have low1: "1 < low \<or> low \<le> high"
  proof (rule ccontr)
    assume "\<not> (1 < low \<or> low \<le> high)"
    with Suc.prems have "high = 0" by simp
    with Suc.prems ach show False by force
  qed
  have mid_rng: "1 \<le> ?mid" "?mid \<le> 100" "?mid \<le> high" "low - 1 \<le> ?mid"
    using Suc.prems low1 by auto
  obtain buffer where pb: "probe_save ps img fmt ?mid = Some (Inr buffer)"
    and len: "int (length buffer) = sz ?mid"
    using enc[OF mid_rng(1,2)] by (auto simp: encoded_size_def split: option.splits sum.splits)
  show ?case
  proof (cases "sz ?mid \<le> target")
    case True
    have inv1: "\<forall>q. 1 \<le> q \<and> q < ?mid + 1 \<longrightarrow> sz q \<le> target"
    proof (intro allI impI)
      fix q assume "1 \<le> q \<and> q < ?mid + 1"
      then have "sz q \<le> sz ?mid" using mono[of q ?mid] mid_rng by simp
      with True show "sz q \<le> target" by simp
    qed
    have left: "high + 1 - (?mid + 1) < 2 ^ n" using Suc.prems(4) by simp
    have "\<exists>r. snd (quality_loop ps img fmt target n (?mid + 1) high ?mid) = Inr r \<and>
            1 \<le> r \<and> r \<le> 100 \<and> sz r \<le> target \<and> (r < 100 \<longrightarrow> target < sz (r + 1))"
      by (rule Suc.IH) (use Suc.prems mid_rng inv1 left in auto)
    then show ?thesis using pb len True by (simp add: Let_def snd_logged)
  next
    case False
    have inv2: "\<forall>q. ?mid - 1 < q \<and> q \<le> 100 \<longrightarrow> target < sz q"
    proof (intro allI impI)
      fix q assume "?mid - 1 < q \<and> q \<le> 100"
      then have "sz ?mid \<le> sz q" using mono[of ?mid q] mid_rng by simp
      with False show "target < sz q" by simp
    qed
    have lowle: "low \<le> high"
    proof (rule ccontr)
      assume "\<not> low \<le> high"
      with Suc.prems have "low = high + 1" by simp
      then have "?mid = high" by simp
      with low1 \<open>low = high + 1\<close> Suc.prems(5) have "sz ?mid \<le> target" using mid_rng by auto
      with False show False by simp
    qed
    have left: "?mid - 1 + 1 - low < 2 ^ n" using Suc.prems(4) lowle by simp
    have "\<exists>r. snd (quality_loop ps img fmt target n low (?mid - 1) best) = Inr r \<and>
            1 \<le> r \<and> r \<le> 100 \<and> sz r \<le> target \<and> (r < 100 \<longrightarrow> target < sz (r + 1))"
      by (rule Suc.IH) (use Suc.prems mid_rng inv2 left lowle in auto)
    then show ?thesis using pb len False by (simp add: Let_def snd_logged)
  qed
qed

lemma quality_loop_length:
  "length (fst (quality_loop ps img fmt target n low high best)) \<le> n"
  by (induction n arbitrary: low high best)
     (auto simp: Let_def fst_logged split: option.splits sum.splits)

lemma quality_loop_no_fit:
  assumes lossy: "fmt = ''webp'' \<or> fmt = ''jpg'' \<or> fmt = ''jpeg''"
  shows "(\<forall>(l, h, q) \<in> set (fst (quality_loop ps img fmt target n low high best)).
            \<exists>s. encoded_size ps img fmt q = Some s \<and> target < s)
         \<Longrightarrow> snd (quality_loop ps img fmt target n low high best) = Inr best"
proof (induction n arbitrary: low high)
  case 0
  then show ?case by simp
next
  case (Suc n)
  let ?mid = "(low + high) div 2"
  obtain x where px: "probe_save ps img fmt ?mid = Some x"
    using lossy by (auto simp: probe_save_def)
  show ?case
  proof (cases x)
    case (Inl e)
    with px Suc.prems show ?thesis by (simp add: encoded_size_def)
  next
    case (Inr buffer)
    with px Suc.prems have big: "target < int (length buffer)"
      by (simp add: encoded_size_def Let_def fst_logged split: if_splits)
    with px Inr Suc.prems
    have "\<forall>(l, h, q) \<in> set (fst (quality_loop ps img fmt target n low (?mid - 1) best)).
            \<exists>s. encoded_size ps img fmt q = Some s \<and> target < s"
      by (simp add: Let_def fst_logged)
    then have "snd (quality_loop ps img fmt target n low (?mid - 1) best) = Inr best"
      by (rule Suc.IH)
    with px Inr big show ?thesis by (simp add: Let_def snd_logged)
  qed
qed

text \<open>
  Claim C1. For a format with a quality parameter, an encoder that succeeds at every
  quality in \<open>[1, 100]\<close> with an encoded size \<open>sz\<close> that is monotone in the quality, and a
  target that at least one quality in \<open>[1, 100]\<close> meets, the quality search returns a
  quality \<open>r\<close> in \<open>[1, 100]\<close> with \<open>sz r \<le> target\<close>; no quality in \<open>[1, 100]\<close> above \<open>r\<close>
  meets the target, and \<open>sz (r + 1) > target\<close> when \<open>r < 100\<close>.
\<close>

theorem quality_search_returns_maximum:
  fixes sz :: "int \<Rightarrow> int"
  assumes enc: "\<And>q. 1 \<le> q \<Longrightarrow> q \<le> 100 \<Longrightarrow> encoded_size pil_save img fmt q = Some (sz q)"
      and mono: "\<And>q q'. 1 \<le> q \<Longrightarrow> q \<le> q' \<Longrightarrow> q' \<le> 100 \<Longrightarrow> sz q \<le> sz q'"
      and ach: "\<exists>q. 1 \<le> q \<and> q \<le> 100 \<and> sz q \<le> target"
  shows "\<exists>r. find_quality_for_target_size pil_save img fmt target = Inr r \<and>
           1 \<le> r \<and> r \<le> 100 \<and> sz r \<le> target \<and>
           (\<forall>q. 1 \<le> q \<and> q \<le> 100 \<and> sz q \<le> target \<longrightarrow> q \<le> r) \<and>
           (r < 100 \<longrightarrow> target < sz (r + 1))"
proof -
  have "\<exists>r. snd (quality_loop pil_save img fmt target 10 1 100 85) = Inr r \<and>
          1 \<le> r \<and> r \<le> 100 \<and> sz r \<le> target \<and> (r < 100 \<longrightarrow> target < sz (r + 1))"
    by (rule quality_loop_max[OF enc mono ach]) (use ach in auto)
  then obtain r where r: "snd (quality_loop pil_save img fmt target 10 1 100 85) = Inr r"
    "1 \<le> r" "r \<le> 100" "sz r \<le> target" "r < 100 \<longrightarrow> target < sz (r + 1)"
    by blast
  have "\<forall>q. 1 \<le> q \<and> q \<le> 100 \<and> sz q \<le> target \<longrightarrow> q \<le> r"
  proof (intro allI impI)
    fix q assume q: "1 \<le> q \<and> q \<le> 100 \<and> sz q \<le> target"
    show "q \<le> r"
    proof (rule ccontr)
      assume "\<not> q \<le> r"
      then have "r + 1 \<le> q" "r < 100" using q by auto
      then have "sz (r + 1) \<le> sz q" using mono[of "r + 1" q] r(2) q by simp
      with r(5) \<open>r < 100\<close> q show False by simp
    qed
  qed
  with r show ?thesis
    by (auto simp: find_quality_for_target_size_def find_quality_trace_def)
qed

theorem quality_search_returns_maximum_witness:
  "find_quality_for_target_size (sized_encoder (\<lambda>q. nat (10 * q))) (blank_image 2 2) ''webp'' 512
     = Inr 51"
proof -
  have "\<exists>r. find_quality_for_target_size (sized_encoder (\<lambda>q. nat (10 * q))) (blank_image 2 2)
              ''webp'' 512 = Inr r \<and>
           1 \<le> r \<and> r \<le> 100 \<and> 10 * r \<le> 512 \<and>
           (\<forall>q. 1 \<le> q \<and> q \<le> 100 \<and> 10 * q \<le> 512 \<longrightarrow> q \<le> r) \<and>
           (r < 100 \<longrightarrow> 512 < 10 * (r + 1))"
  proof (rule quality_search_returns_maximum)
    show "\<exists>q::int. 1 \<le> q \<and> q \<le> 100 \<and> 10 * q \<le> 512"
      by (rule exI[of _ 1]) simp
  qed (simp_all add: encoded_size_sized)
  then obtain r where "find_quality_for_target_size (sized_encoder (\<lambda>q. nat (10 * q)))
      (blank_image 2 2) ''webp'' 512 = Inr r" and "10 * r \<le> 512" and "r < 100 \<longrightarrow> 512 < 10 * (r + 1)"
    by blast
  moreover from this have "r = 51" by arith
  ultimately show ?thesis by simp
qed

text \<open>
  Claim C2, as stated, fails: the loop has no exit on \<open>low > high\<close>. With an encoder whose
  output at quality \<open>q\<close> has \<open>10 * q\<close> bytes and a target of 512 bytes, the candidates run
  out after seven test saves (\<open>low = 52\<close>, \<open>high = 51\<close>), and three more test saves
  follow.
\<close>

theorem quality_search_probes_after_exhaustion:
  "fst (find_quality_trace (sized_encoder (\<lambda>q. nat (10 * q))) (blank_image 2 2) ''webp'' 512)
     = [(1, 100, 50), (51, 100, 75), (51, 74, 62), (51, 61, 56), (51, 55, 53),
        (51, 52, 51), (52, 52, 52), (52, 51, 51), (52, 51, 51), (52, 51, 51)]"
  unfolding find_quality_trace_def ten_iterations
  by (simp add: quality_loop_sized del: quality_loop.simps(2))

text \<open>
  Claim C2, amended. The quality search is a loop of ten iterations with one test save
  at most in each: whatever the encoder, the image, the format and the target, it makes at
  most ten test saves.
\<close>

theorem quality_search_at_most_ten_probes:
  "length (fst (find_quality_trace pil_save img fmt target)) \<le> 10"
  unfolding find_quality_trace_def by (rule quality_loop_length)

text \<open>
  Where the default does come back: for a format with a quality parameter, when every
  test save the search makes, those at quality 0 included, succeeds with more bytes than
  the target, the search returns its initial \<open>best_quality\<close>, 85.
\<close>

lemma quality_search_default_when_no_probe_fits:
  assumes "fmt = ''webp'' \<or> fmt = ''jpg'' \<or> fmt = ''jpeg''"
      and "\<forall>q \<in> set (probed pil_save img fmt target).
             \<exists>s. encoded_size pil_save img fmt q = Some s \<and> target < s"
  shows "find_quality_for_target_size pil_save img fmt target = Inr 85"
  unfolding find_quality_for_target_size_def find_quality_trace_def
  by (rule quality_loop_no_fit[OF assms(1)])
     (use assms(2) in \<open>auto simp: probed_def find_quality_trace_def\<close>)


text \<open>
  Claim C4 does not hold of the code. The bounds start at 1 and 100, but the loop goes on
  after \<open>low > high\<close>: when no quality from 1 up fits, \<open>low = 1\<close> and \<open>high \<le> 0\<close>, and the
  test saves are made at quality 0. If the encoding at quality 0 fits, 0 is returned.
\<close>

theorem quality_search_probes_quality_zero:
  "probed (sized_encoder (\<lambda>q. 20000)) (blank_image 2 2) ''webp'' 10240
     = [50, 25, 12, 6, 3, 1, 0, 0, 0, 0] \<and>
   find_quality_for_target_size (sized_encoder (\<lambda>q. if q \<le> 0 then 9000 else 20000))
     (blank_image 2 2) ''webp'' 10240 = Inr 0"
  unfolding probed_def find_quality_for_target_size_def find_quality_trace_def ten_iterations
  by (simp add: quality_loop_sized del: quality_loop.simps(2))

section \<open>Properties of the cut\<close>

lemma map_append_zip: "map (\<lambda>(r, r'). r @ r') (zip (map f xs) (map g xs)) = map (\<lambda>x. f x @ g x) xs"
  by (induction xs) auto

lemma wf_rows_length: "wf_image img \<Longrightarrow> length (rows img) = nat (height img)"
  by (auto simp: wf_image_def)

lemma wf_row_width: "wf_image img \<Longrightarrow> r \<in> set (rows img) \<Longrightarrow> length r = nat (width img)"
  by (auto simp: wf_image_def list_all_iff)

lemma crop_top_rows:
  assumes "wf_image img"
  shows "rows (crop img (0, 0, width img, height img div 2)) = take (nat (height img div 2)) (rows img)"
  using assms by (auto simp: crop_def wf_row_width intro!: map_idI dest: in_set_takeD)

lemma crop_bottom_rows:
  assumes "wf_image img"
  shows "rows (crop img (0, height img div 2, width img, height img)) = drop (nat (height img div 2)) (rows img)"
proof -
  have "nat (height img - height img div 2) \<ge> length (drop (nat (height img div 2)) (rows img))"
    using assms by (simp add: wf_rows_length)
  then have "take (nat (height img - height img div 2)) (drop (nat (height img div 2)) (rows img))
     = drop (nat (height img div 2)) (rows img)" by simp
  moreover have "map (\<lambda>r. take (nat (width img)) r) (drop (nat (height img div 2)) (rows img))
     = drop (nat (height img div 2)) (rows img)"
    using assms by (auto simp: wf_row_width intro!: map_idI dest: in_set_dropD)
  ultimately show ?thesis by (simp add: crop_def)
qed

lemma crop_left_rows:
  assumes "wf_image img"
  shows "rows (crop img (0, 0, width img div 2, height img)) = map (take (nat (width img div 2))) (rows img)"
  using assms by (simp add: crop_def wf_rows_length)

lemma crop_right_rows:
  assumes "wf_image img"
  shows "rows (crop img (width img div 2, 0, width img, height img)) = map (drop (nat (width img div 2))) (rows img)"
proof -
  have "\<And>r. r \<in> set (rows img) \<Longrightarrow>
     take (nat (width img - width img div 2)) (drop (nat (width img div 2)) r) = drop (nat (width img div 2)) r"
    using assms by (simp add: wf_row_width)
  then show ?thesis using assms by (simp add: crop_def wf_rows_length)
qed

lemma wf_crop:
  assumes "wf_image img" "0 \<le> l" "l \<le> r" "r \<le> width img" "0 \<le> u" "u \<le> b" "b \<le> height img"
  shows "wf_image (crop img (l, u, r, b))"
  using assms
  by (auto simp: wf_image_def crop_def list_all_iff min_def dest!: in_set_takeD in_set_dropD)


text \<open>
  Claim C8. For a well-formed image of width \<open>W\<close> and height \<open>H\<close>, the horizontal cut
  saves a top image of \<open>H div 2\<close> rows and a bottom image of \<open>H - H div 2\<close> rows, both of
  width \<open>W\<close>; the vertical cut saves a left image of width \<open>W div 2\<close> and a right image of
  width \<open>W - W div 2\<close>, both of height \<open>H\<close>. The halves are well-formed: their rows and
  the lengths of their rows are as their sizes say.
\<close>

theorem cut_dimensions:
  assumes "wf_image img"
  shows "(\<exists>top bottom.
            cut_halves ''horizontal'' img = [(''_top'', top), (''_bottom'', bottom)] \<and>
            width top = width img \<and> height top = height img div 2 \<and>
            length (rows top) = nat (height img div 2) \<and>
            width bottom = width img \<and> height bottom = height img - height img div 2 \<and>
            length (rows bottom) = nat (height img - height img div 2) \<and>
            wf_image top \<and> wf_image bottom) \<and>
         (\<exists>left right.
            cut_halves ''vertical'' img = [(''_left'', left), (''_right'', right)] \<and>
            height left = height img \<and> width left = width img div 2 \<and>
            height right = height img \<and> width right = width img - width img div 2 \<and>
            wf_image left \<and> wf_image right)"
proof -
  have nn: "0 \<le> width img" "0 \<le> height img" using assms by (auto simp: wf_image_def)
  have wf: "wf_image (crop img (0, 0, width img, height img div 2))"
    "wf_image (crop img (0, height img div 2, width img, height img))"
    "wf_image (crop img (0, 0, width img div 2, height img))"
    "wf_image (crop img (width img div 2, 0, width img, height img))"
    using nn by (auto intro!: wf_crop[OF assms])
  have dims: "\<And>l u r b. width (crop img (l, u, r, b)) = r - l \<and> height (crop img (l, u, r, b)) = b - u"
    by (simp add: crop_def)
  have len: "length (rows (crop img (0, 0, width img, height img div 2))) = nat (height img div 2)"
    "length (rows (crop img (0, height img div 2, width img, height img))) = nat (height img - height img div 2)"
    using wf[THEN wf_rows_length] by (simp_all add: dims)
  show ?thesis
    using wf len by (simp add: cut_halves_def Let_def dims)
qed

theorem cut_dimensions_witness:
  "wf_image (blank_image 5 3) \<and>
   map (\<lambda>(n, h). (n, width h, height h, length (rows h))) (cut_halves ''horizontal'' (blank_image 5 3))
     = [(''_top'', 5, 1, 1), (''_bottom'', 5, 2, 2)] \<and>
   map (\<lambda>(n, h). (n, width h, height h)) (cut_halves ''vertical'' (blank_image 5 3))
     = [(''_left'', 2, 3), (''_right'', 3, 3)]"
proof -
  have w: "wf_image (blank_image 5 3)"
    by (simp add: wf_image_def blank_image_def blank_rows_def list_all_iff)
  have d: "width (blank_image 5 3) = 5" "height (blank_image 5 3) = 3" by (simp_all add: blank_image_def)
  from cut_dimensions[OF w] show ?thesis using w by (auto simp: d)
qed

text \<open>
  Claim C10. For a well-formed image, the two halves of a cut partition it: the rows of
  the top half followed by the rows of the bottom half are the rows of the image, each row
  of the left half followed by the same row of the right half is that row of the image,
  and stacking the halves again gives the image itself.
\<close>

theorem cut_partitions_image:
  assumes "wf_image img"
  shows "(\<exists>top bottom.
            cut_halves ''horizontal'' img = [(''_top'', top), (''_bottom'', bottom)] \<and>
            rows top @ rows bottom = rows img \<and>
            stack_vertical top bottom = img) \<and>
         (\<exists>left right.
            cut_halves ''vertical'' img = [(''_left'', left), (''_right'', right)] \<and>
            length (rows left) = length (rows img) \<and> length (rows right) = length (rows img) \<and>
            (\<forall>i < length (rows img). rows left ! i @ rows right ! i = rows img ! i) \<and>
            stack_horizontal left right = img)"
proof -
  have h: "stack_vertical (crop img (0, 0, width img, height img div 2))
             (crop img (0, height img div 2, width img, height img)) = img"
    by (simp add: stack_vertical_def crop_top_rows[OF assms] crop_bottom_rows[OF assms])
       (simp add: crop_def)
  have v: "stack_horizontal (crop img (0, 0, width img div 2, height img))
             (crop img (width img div 2, 0, width img, height img)) = img"
    by (simp add: stack_horizontal_def crop_left_rows[OF assms] crop_right_rows[OF assms]
          map_append_zip)
       (simp add: crop_def)
  show ?thesis
    using h v
    by (simp add: cut_halves_def Let_def crop_top_rows[OF assms] crop_bottom_rows[OF assms]
          crop_left_rows[OF assms] crop_right_rows[OF assms])
qed

theorem cut_partitions_image_witness:
  "wf_image sample_image \<and>
   map (\<lambda>(n, h). rows h) (cut_halves ''horizontal'' sample_image) = [[[1, 2, 3]], [[4, 5, 6]]] \<and>
   map (\<lambda>(n, h). rows h) (cut_halves ''vertical'' sample_image) = [[[1], [4]], [[2, 3], [5, 6]]] \<and>
   stack_vertical (snd (cut_halves ''horizontal'' sample_image ! 0))
     (snd (cut_halves ''horizontal'' sample_image ! 1)) = sample_image \<and>
   stack_horizontal (snd (cut_halves ''vertical'' sample_image ! 0))
     (snd (cut_halves ''vertical'' sample_image ! 1)) = sample_image"
proof -
  have w: "wf_image sample_image" by (simp add: wf_image_def sample_image_def)
  have r: "map (\<lambda>(n, h). rows h) (cut_halves ''horizontal'' sample_image) = [[[1, 2, 3]], [[4, 5, 6]]]"
    "map (\<lambda>(n, h). rows h) (cut_halves ''vertical'' sample_image) = [[[1], [4]], [[2, 3], [5, 6]]]"
    by (simp_all add: cut_halves_def crop_def sample_image_def Let_def)
  from cut_partitions_image[OF w] show ?thesis using w r by auto
qed

section \<open>Properties of saving\<close>

lemma find_quality_other_format:
  assumes "fmt \<noteq> ''webp''" "fmt \<noteq> ''jpg''" "fmt \<noteq> ''jpeg''"
  shows "find_quality_for_target_size ps img fmt t = Inr 50"
  unfolding find_quality_for_target_size_def find_quality_trace_def ten_iterations
  using assms by (simp add: probe_save_def)

text \<open>
  Claim C9. When the lower-cased output format is \<open>png\<close>, the result of \<open>save_image\<close> is
  that of the single call \<open>save(path, 'PNG', optimize=True)\<close>, whatever the \<open>quality\<close> and
  \<open>target_size_kb\<close> entries of the settings are: the file written and the counters do not
  depend on them, and nothing is raised unless that one save raises.
\<close>

theorem png_ignores_quality_and_target:
  assumes "str_lower (get_or (output_format settings) ''webp'') = ''png''"
  shows "save_image L img p (settings\<lparr>quality := q, target_size_kb := t\<rparr>) st =
           (case save_to_path L img p PNG (disk st) of
              Inl e \<Rightarrow> Inl e
            | Inr d \<Rightarrow> Inr (track_new_size p (st\<lparr>disk := d\<rparr>))) \<and>
         (\<forall>b. image_save L img PNG = Inr b \<and> write_error L p b = None \<longrightarrow>
            save_image L img p (settings\<lparr>quality := q, target_size_kb := t\<rparr>) st =
              Inr (track_new_size p (st\<lparr>disk := (disk st)(p \<mapsto> b)\<rparr>)))"
  using assms
  by (auto simp: save_image_def Let_def find_quality_other_format save_to_path_def
           split: sum.splits option.splits)

lemma lower_PNG: "str_lower ''PNG'' = ''png''"
  by code_simp

theorem png_ignores_quality_and_target_witness:
  "save_image (toy_library (\<lambda>q. 100)) (blank_image 4 3) ''/out/a.png''
     (no_settings\<lparr>output_format := Some ''PNG'', quality := Some 1, target_size_kb := Some 10\<rparr>)
     (new_processor Map.empty)
   = Inr \<lparr>total_original_size = 0, total_new_size = 7, disk = [''/out/a.png'' \<mapsto> ''ppppppp'']\<rparr>"
proof -
  have r: "replicate 7 (CHR ''p'') = ''ppppppp''" by code_simp
  have "str_lower (get_or (output_format (no_settings\<lparr>output_format := Some ''PNG''\<rparr>)) ''webp'') = ''png''"
    by (simp add: get_or_def lower_PNG)
  from png_ignores_quality_and_target[OF this, where L = "toy_library (\<lambda>q. 100)"
      and img = "blank_image 4 3" and p = "''/out/a.png''" and q = "Some 1" and t = "Some 10"
      and st = "new_processor Map.empty"]
  show ?thesis
    by (simp add: save_to_path_def toy_library_def sized_encoder_def track_new_size_def
          new_processor_def r)
qed

section \<open>Properties of the resize\<close>

lemma preset_height_7_by_3:
  "py_int (float_mul (float_of_int 3) (binary64 (1920 / 7))) = 822"
  by code_simp

text \<open>
  Nor is the height the floor of the exact quotient: the quotient \<open>1920 / 11\<close> is rounded
  to a double first, and 22 times that double is just below 3840.
\<close>

lemma preset_height_below_exact_quotient:
  "py_int (float_mul (float_of_int 22) (binary64 (1920 / 11))) = 3839 \<and> (22 * 1920) div 11 = (3840::int)"
  by code_simp

text \<open>
  Claim C7, as stated, fails: the height is truncated, not rounded. A 7 by 3 image resized
  to the preset width 1920 with the aspect kept gets the height
  \<open>int(3 * (1920 / 7)) = int(822.857...) = 822\<close>, and the rounded quotient is 823.
\<close>

theorem resize_preset_truncates:
  "resize_image (toy_library (\<lambda>q. 100)) (blank_image 7 3)
     (no_settings\<lparr>resize_mode := Some ''preset'', preset_width := Some 1920,
                  maintain_aspect := Some True\<rparr>)
     = Inr (blank_image 1920 822) \<and>
   round (3 * 1920 / 7 :: rat) = 823"
proof -
  have "round (3 * 1920 / 7 :: rat) = 823" by code_simp
  then show ?thesis
    by (simp add: resize_image_def get_or_def no_settings_def blank_image_def int_truediv_def
          image_resize_def toy_library_def preset_height_7_by_3)
qed

lemma py_index_preset_values:
  assumes "py_index preset_values i = Inr w"
  shows "w \<in> {1920, 1200, 800, 400}"
proof -
  have "w \<in> set preset_values"
    using assms by (auto simp: py_index_def split: if_splits)
  then show ?thesis by (simp add: preset_values_def)
qed

lemma get_settings_preset:
  assumes "get_settings u = Inr s" "ui_resize_enabled u" "ui_resize_preset u"
  shows "\<exists>w. py_index preset_values (ui_preset_combo u) = Inr w \<and>
           resize_mode s = Some ''preset'' \<and> preset_width s = Some w \<and>
           maintain_aspect s = Some (ui_maintain_aspect u)"
  using assms by (auto simp: get_settings_def Let_def split: sum.splits if_splits)

text \<open>
  Claim C7, amended. With the resize enabled and the preset mode chosen in the window, a
  resize that succeeds gives an image whose width is the entry of
  \<open>[1920, 1200, 800, 400]\<close> selected by the preset box; with the aspect kept its height is
  \<open>int(height * (width' / width))\<close>, the double-precision product truncated towards zero,
  and with the aspect not kept its height is unchanged.
\<close>

theorem resize_preset_dimensions:
  assumes "get_settings u = Inr s" "ui_resize_enabled u" "ui_resize_preset u"
      and "resize_image L img s = Inr img'"
  shows "py_index preset_values (ui_preset_combo u) = Inr (width img') \<and>
         width img' \<in> {1920, 1200, 800, 400} \<and>
         height img' =
           (if ui_maintain_aspect u
            then py_int (float_mul (float_of_int (height img))
                           (binary64 (of_int (width img') / of_int (width img))))
            else height img)"
proof -
  obtain w where w: "py_index preset_values (ui_preset_combo u) = Inr w"
    "resize_mode s = Some ''preset''" "preset_width s = Some w"
    "maintain_aspect s = Some (ui_maintain_aspect u)"
    using get_settings_preset[OF assms(1-3)] by blast
  have "width img' = w \<and>
        height img' =
           (if ui_maintain_aspect u
            then py_int (float_mul (float_of_int (height img))
                           (binary64 (of_int w / of_int (width img))))
            else height img)"
    using assms(4) w(2-4)
    by (auto simp: resize_image_def get_or_def Let_def int_truediv_def image_resize_def
             split: sum.splits if_splits)
  with w(1) py_index_preset_values[OF w(1)] show ?thesis by simp
qed


theorem resize_preset_dimensions_witness:
  "\<exists>s. get_settings (default_ui\<lparr>ui_resize_enabled := True\<rparr>) = Inr s \<and>
       resize_image (toy_library (\<lambda>q. 100)) (blank_image 7 3) s = Inr (blank_image 1920 822) \<and>
       width (blank_image 1920 822) \<in> {1920, 1200, 800, 400} \<and>
       height (blank_image 1920 822) = py_int (float_mul (float_of_int 3) (binary64 (1920 / 7)))"
proof -
  let ?u = "default_ui\<lparr>ui_resize_enabled := True\<rparr>"
  have en: "ui_resize_enabled ?u" "ui_resize_preset ?u" "ui_maintain_aspect ?u"
    by (simp_all add: default_ui_def)
  have "\<exists>s. get_settings ?u = Inr s"
    by (simp add: get_settings_def default_ui_def py_index_def preset_values_def Let_def)
  then obtain s where gs: "get_settings ?u = Inr s" by blast
  from get_settings_preset[OF gs en(1,2)]
  have f: "resize_mode s = Some ''preset''" "preset_width s = Some 1920" "maintain_aspect s = Some True"
    by (auto simp: default_ui_def py_index_def preset_values_def)
  have rs: "resize_image (toy_library (\<lambda>q. 100)) (blank_image 7 3) s = Inr (blank_image 1920 822)"
    using f
    by (simp add: resize_image_def get_or_def blank_image_def int_truediv_def
          image_resize_def toy_library_def preset_height_7_by_3)
  from resize_preset_dimensions[OF gs en(1,2) rs] show ?thesis
    using gs rs en(3) by (auto simp: blank_image_def)
qed

section \<open>The empty watermark text\<close>

lemma get_settings_watermark:
  assumes "get_settings u = Inr s"
  shows "watermark_enabled s = Some (ui_watermark_enabled u) \<and>
         (ui_watermark_enabled u \<longrightarrow> watermark_text s = Some (ui_watermark_text u))"
  using assms by (auto simp: get_settings_def Let_def split: sum.splits if_splits)

text \<open>
  Claim C6, as stated, fails: the transform engine raises nothing on an empty watermark
  text. \<open>add_watermark\<close> returns the image as it is, and \<open>process_image\<close> with the watermark
  enabled and an empty text goes on to write its output file.
\<close>

theorem empty_watermark_is_skipped_silently:
  "add_watermark (toy_library (\<lambda>q. 5)) (blank_image 4 3)
     (no_settings\<lparr>watermark_enabled := Some True, watermark_text := Some []\<rparr>) = blank_image 4 3 \<and>
   fst (process_image (toy_library (\<lambda>q. 5))
          (no_settings\<lparr>watermark_enabled := Some True, watermark_text := Some []\<rparr>)
          ''/out'' ''/in/a.png'' (new_processor [''/in/a.png'' \<mapsto> ''data''])) = None \<and>
   disk (snd (process_image (toy_library (\<lambda>q. 5))
          (no_settings\<lparr>watermark_enabled := Some True, watermark_text := Some []\<rparr>)
          ''/out'' ''/in/a.png'' (new_processor [''/in/a.png'' \<mapsto> ''data''])))
     ''/out/a.webp'' = Some ''wwwww''"
proof -
  have r: "replicate 5 (CHR ''w'') = ''wwwww''" by code_simp
  have l: "str_lower ''webp'' = ''webp''" by code_simp
  show ?thesis
    by (simp add: add_watermark_def process_image_def os_getsize_def open_file_def toy_library_def
          normalize_mode_def blank_image_def cut_halves_def save_image_def save_to_path_def
          track_new_size_def new_processor_def sized_encoder_def get_or_def no_settings_def l r)
qed

text \<open>
  Claim C6, amended. With the watermark box checked and an empty watermark text,
  \<open>process_images\<close> of the window (given selected files and settings that could be read)
  shows the warning \<open>Watermark Text Required\<close> and returns: no worker is started and the
  disk is untouched. The transform engine itself does not fail on these settings:
  \<open>add_watermark\<close> returns its image unchanged.
\<close>

theorem empty_watermark_warned_by_window:
  assumes "selected_files \<noteq> []" "get_settings u = Inr s"
      and "ui_watermark_enabled u" "ui_watermark_text u = []"
  shows "process_images L selected_files output_directory u d =
           (Warning ''Watermark Text Required''
              ''Please enter watermark text or disable watermark!'', d) \<and>
         add_watermark L img s = img"
  using assms get_settings_watermark[OF assms(2)]
  by (simp add: process_images_def add_watermark_def get_or_def)

theorem empty_watermark_warned_by_window_witness:
  "process_images (toy_library (\<lambda>q. 5)) [''/in/a.png''] [] (default_ui\<lparr>ui_watermark_enabled := True\<rparr>)
     [''/in/a.png'' \<mapsto> ''data'']
   = (Warning ''Watermark Text Required'' ''Please enter watermark text or disable watermark!'',
      [''/in/a.png'' \<mapsto> ''data''])"
proof -
  let ?u = "default_ui\<lparr>ui_watermark_enabled := True\<rparr>"
  have "\<exists>s. get_settings ?u = Inr s"
    by (simp add: get_settings_def default_ui_def Let_def)
  then obtain s where gs: "get_settings ?u = Inr s" by blast
  have "[''/in/a.png''] \<noteq> ([] :: path list)" by simp
  from empty_watermark_warned_by_window[OF this gs, of "toy_library (\<lambda>q. 5)" "[]"
      "[''/in/a.png'' \<mapsto> ''data'']"]
  show ?thesis by (simp add: default_ui_def)
qed

section \<open>A failure in the batch\<close>

lemma run_loop_append:
  "run_loop L settings out_dir n idx (pre @ rest) st =
     (case run_loop L settings out_dir n idx pre st of
        (sigs, Some e, st') \<Rightarrow> (sigs, Some e, st')
      | (sigs, None, st') \<Rightarrow>
          (sigs @ fst (run_loop L settings out_dir n (idx + int (length pre)) rest st'),
           snd (run_loop L settings out_dir n (idx + int (length pre)) rest st')))"
proof (induction pre arbitrary: idx st)
  case Nil
  then show ?case by simp
next
  case (Cons f pre)
  show ?case
  proof (cases "process_image L settings out_dir f st")
    case (Pair r st')
    show ?thesis
    proof (cases r)
      case (Some e)
      with Pair show ?thesis by simp
    next
      case None
      show ?thesis
      proof (cases "int_truediv (idx + 1) n")
        case (Inl e)
        with Pair None show ?thesis by simp
      next
        case (Inr q)
        have "idx + 1 + int (length pre) = idx + int (length (f # pre))" by simp
        with Pair None Inr Cons.IH[of "idx + 1" st'] show ?thesis
          by (auto simp: Let_def add.assoc split: prod.splits option.splits)
      qed
    qed
  qed
qed

lemma run_loop_progress:
  "x \<in> set (fst (run_loop L settings out_dir n idx files st)) \<Longrightarrow> \<exists>p. x = Progress p"
  by (induction files arbitrary: idx st x)
     (auto simp: Let_def split: prod.splits option.splits sum.splits)

text \<open>
  Claim C5, amended. When the files before \<open>f\<close> are processed and \<open>process_image\<close> raises
  on \<open>f\<close>, \<open>run\<close> catches the exception and surfaces it: after the progress signals of the
  earlier files it emits the single signal \<open>Error\<close> with the text \<open>Error: \<close> followed by the
  message, and nothing else. The batch is aborted, not resumed: the final state is the
  state at the failure, whatever files follow \<open>f\<close>.
\<close>

theorem run_aborts_on_first_error:
  assumes "run_loop L settings out_dir (int (length (pre @ f # post))) 0 pre st = (sigs, None, st1)"
      and "process_image L settings out_dir f st1 = (Some e, st2)"
  shows "run L (pre @ f # post) out_dir settings st
           = (sigs @ [Error (''Error: '' @ str_error e)], st2) \<and>
         (\<forall>x \<in> set sigs. \<exists>p. x = Progress p)"
proof -
  have "\<forall>x \<in> set sigs. \<exists>p. x = Progress p"
    using run_loop_progress[of _ L settings out_dir "int (length (pre @ f # post))" 0 pre st] assms(1)
    by auto
  moreover have "run_loop L settings out_dir (int (length (pre @ f # post))) 0 (pre @ f # post) st
      = (sigs, Some e, st2)"
    using assms by (simp add: run_loop_append)
  ultimately show ?thesis by (simp add: run_def Let_def)
qed

lemma percent_1_of_3: "py_int (float_mul (binary64 (1 / 3)) (float_of_int 100)) = 33"
  by code_simp

lemma percent_1_of_1: "py_int (float_mul (binary64 1) (float_of_int 100)) = 100"
  by code_simp

lemma percentage_example: "float_mul (binary64 (- (1 / 4))) (float_of_int 100) = - 25"
  by code_simp

lemma str_nat_1: "str_nat (Suc 0) = ''1''"
  by code_simp

lemma toy_strings: "replicate 5 (CHR ''w'') = ''wwwww''" "str_lower ''webp'' = ''webp''"
  by code_simp+

lemmas toy_run_defs =
  process_image_def os_getsize_def open_file_def toy_library_def normalize_mode_def blank_image_def
  cut_halves_def save_image_def save_to_path_def track_new_size_def new_processor_def
  sized_encoder_def get_or_def no_settings_def int_truediv_def

text \<open>
  Claim C5, as stated, fails: the coordinator does not skip to the next file. In a batch
  of a corrupt file followed by a good one, the only signal is the error and the good
  file is never converted, although on its own it converts without error.
\<close>

theorem run_aborts_batch_example:
  "fst (run (toy_library (\<lambda>q. 5)) [''/in/bad.png'', ''/in/a.png''] ''/out'' no_settings
          (new_processor [''/in/bad.png'' \<mapsto> ''corrupt'', ''/in/a.png'' \<mapsto> ''data'']))
     = [Error ''Error: cannot identify image file''] \<and>
   disk (snd (run (toy_library (\<lambda>q. 5)) [''/in/bad.png'', ''/in/a.png''] ''/out'' no_settings
          (new_processor [''/in/bad.png'' \<mapsto> ''corrupt'', ''/in/a.png'' \<mapsto> ''data''])))
     ''/out/a.webp'' = None \<and>
   fst (run (toy_library (\<lambda>q. 5)) [''/in/a.png''] ''/out'' no_settings
          (new_processor [''/in/bad.png'' \<mapsto> ''corrupt'', ''/in/a.png'' \<mapsto> ''data'']))
     = [Progress 100,
        Stats_update \<lparr>total_files = 1, original_size = 4, new_size = 5, savings = - 1,
                      percentage = - 25\<rparr>,
        Finished ''Successfully processed 1 image(s)'']"
  by (simp add: run_def final_stats_def toy_run_defs toy_strings percent_1_of_1 percentage_example str_nat_1)

theorem run_aborts_on_first_error_witness:
  "run (toy_library (\<lambda>q. 5)) [''/in/a.png'', ''/in/bad.png'', ''/in/b.png''] ''/out'' no_settings
     (new_processor [''/in/a.png'' \<mapsto> ''data'', ''/in/bad.png'' \<mapsto> ''corrupt'',
                     ''/in/b.png'' \<mapsto> ''data''])
   = ([Progress 33, Error ''Error: cannot identify image file''],
      \<lparr>total_original_size = 11, total_new_size = 5,
       disk = [''/in/a.png'' \<mapsto> ''data'', ''/in/bad.png'' \<mapsto> ''corrupt'',
               ''/in/b.png'' \<mapsto> ''data'', ''/out/a.webp'' \<mapsto> ''wwwww'']\<rparr>)"
proof -
  let ?d = "[''/in/a.png'' \<mapsto> ''data'', ''/in/bad.png'' \<mapsto> ''corrupt'', ''/in/b.png'' \<mapsto> ''data'']"
  let ?st1 = "\<lparr>total_original_size = 4, total_new_size = 5,
               disk = ?d(''/out/a.webp'' \<mapsto> ''wwwww'')\<rparr>"
  let ?st2 = "\<lparr>total_original_size = 11, total_new_size = 5,
               disk = ?d(''/out/a.webp'' \<mapsto> ''wwwww'')\<rparr>"
  have h1: "run_loop (toy_library (\<lambda>q. 5)) no_settings ''/out''
              (int (length ([''/in/a.png''] @ ''/in/bad.png'' # [''/in/b.png''])))
              0 [''/in/a.png''] (new_processor ?d)
            = ([Progress 33], None, ?st1)"
    by (simp add: toy_run_defs toy_strings percent_1_of_3)
  have h2: "process_image (toy_library (\<lambda>q. 5)) no_settings ''/out'' ''/in/bad.png'' ?st1
            = (Some (OSError ''cannot identify image file''), ?st2)"
    by (simp add: toy_run_defs)
  from run_aborts_on_first_error[OF h1 h2] show ?thesis by simp
qed

end
